theory Spec2Isabelle
  imports Complex_Main
begin

section \<open>NutriGen inference pipeline (app.py)\<close>

text \<open>
  The development follows \<^verbatim>\<open>app.py\<close>: Python values and dictionaries, the string
  operations the script uses (\<^verbatim>\<open>split\<close>, \<^verbatim>\<open>strip\<close>, \<^verbatim>\<open>capitalize\<close>,
  \<^verbatim>\<open>startswith\<close>, slicing, one \<^verbatim>\<open>re.sub\<close>), the loader
  \<^verbatim>\<open>load_model_and_tokenizer\<close> and the handler of the generate button.
  Exceptions are values of type \<open>exn\<close>; a computation that may raise returns \<open>exn + 'a\<close>.
  Calls into Streamlit and into the model and tokenizer are recorded, in order, as a list
  of events.
\<close>

subsection \<open>Strings\<close>

text \<open>
  A Python \<^verbatim>\<open>str\<close> is a list of code points; \<open>char\<close> covers the code points below 256.
  \<^verbatim>\<open>str.isspace\<close> and the regular-expression class \<^verbatim>\<open>\s\<close> agree on one character:
  TAB, LF, VT, FF, CR, the separators 28 to 31, the space, NEL (133) and the no-break
  space (160).
\<close>

definition isspace :: "char \<Rightarrow> bool" where
  "isspace c = (of_char c \<in> ({9, 10, 11, 12, 13, 28, 29, 30, 31, 32, 133, 160} :: nat set))"

text \<open>\<^verbatim>\<open>s.split(sep)\<close> for a one-character separator: the pieces between the separators,
  empty pieces included; the empty string gives one empty piece. The result is never the
  empty list, so the second branch of the \<open>case\<close> is never taken.\<close>

fun split :: "char \<Rightarrow> string \<Rightarrow> string list" where
  "split sep [] = [[]]"
| "split sep (c # cs) =
     (if c = sep then [] # split sep cs
      else (case split sep cs of
              piece # pieces \<Rightarrow> (c # piece) # pieces
            | [] \<Rightarrow> [[c]]))"

text \<open>\<^verbatim>\<open>s.strip()\<close>: leading and trailing whitespace removed.\<close>

definition lstrip :: "string \<Rightarrow> string" where
  "lstrip s = dropWhile isspace s"

definition rstrip :: "string \<Rightarrow> string" where
  "rstrip s = rev (dropWhile isspace (rev s))"

definition strip :: "string \<Rightarrow> string" where
  "strip s = rstrip (lstrip s)"

text \<open>\<^verbatim>\<open>sep.join(xs)\<close>.\<close>

fun join :: "string \<Rightarrow> string list \<Rightarrow> string" where
  "join sep [] = []"
| "join sep [x] = x"
| "join sep (x # y # ys) = x @ sep @ join sep (y # ys)"

text \<open>Line 160: \<^verbatim>\<open>ingredients_list = [i.strip() for i in ingredients_input.split(',')]\<close>.\<close>

definition ingredients_list :: "string \<Rightarrow> string list" where
  "ingredients_list ingredients_input = map strip (split (CHR '','') ingredients_input)"

text \<open>\<^verbatim>\<open>s.startswith(p)\<close> and the slice \<^verbatim>\<open>s[n:]\<close> (which never raises: a slice
  beyond the end is the empty string).\<close>

definition startswith :: "string \<Rightarrow> string \<Rightarrow> bool" where
  "startswith s p = (take (length p) s = p)"

definition slice_from :: "nat \<Rightarrow> string \<Rightarrow> string" where
  "slice_from n s = drop n s"


definition is_az :: "char \<Rightarrow> bool" where
  "is_az c = (97 \<le> (of_char c :: nat) \<and> (of_char c :: nat) \<le> 122)"

definition is_AZ :: "char \<Rightarrow> bool" where
  "is_AZ c = (65 \<le> (of_char c :: nat) \<and> (of_char c :: nat) \<le> 90)"

definition upper :: "char \<Rightarrow> char" where
  "upper c = (if is_az c then char_of (of_char c - (32 :: nat)) else c)"

definition lower :: "char \<Rightarrow> char" where
  "lower c = (if is_AZ c then char_of (of_char c + (32 :: nat)) else c)"

text \<open>\<^verbatim>\<open>s.capitalize()\<close>: the first character in upper case, all the others in lower case.\<close>

fun capitalize :: "string \<Rightarrow> string" where
  "capitalize [] = []"
| "capitalize (c # cs) = upper c # map lower cs"

text \<open>
  Line 192:
  \<^verbatim>\<open>re.sub(r'([.!?])\s*([a-z])', lambda p: p.group(1) + " " + p.group(2).upper(), text)\<close>.
  The scan goes from left to right. A match starts at a character of \<^verbatim>\<open>[.!?]\<close>, takes
  the whole run of whitespace after it (a shorter run cannot be followed by a letter) and
  needs a letter of \<^verbatim>\<open>[a-z]\<close> next; it is replaced, and the scan goes on after the
  letter. Where no match starts, the character is copied.
\<close>

definition is_terminal :: "char \<Rightarrow> bool" where
  "is_terminal c = (c = CHR ''.'' \<or> c = CHR ''!'' \<or> c = CHR ''?'')"

function re_sub :: "string \<Rightarrow> string" where
  "re_sub [] = []"
| "re_sub (c # cs) =
     (if is_terminal c then
        (case dropWhile isspace cs of
           [] \<Rightarrow> c # re_sub cs
         | l # rest \<Rightarrow>
             if is_az l then c # CHR '' '' # upper l # re_sub rest
             else c # re_sub cs)
      else c # re_sub cs)"
  by pat_completeness auto
termination
proof (relation "measure length")
  show "wf (measure length)" by simp
next
  fix c :: char and cs l rest
  assume "dropWhile isspace cs = l # rest"
  then have "length (l # rest) \<le> length cs"
    by (metis length_dropWhile_le)
  then show "(rest, c # cs) \<in> measure length" by simp
qed simp_all

text \<open>Lines 191 and 192, the postprocessing of the decoded text.\<close>

definition clean :: "string \<Rightarrow> string" where
  "clean recipe_text = re_sub (capitalize recipe_text)"

subsection \<open>Python values, dictionaries, exceptions\<close>

text \<open>The exceptions, all of them instances of \<^verbatim>\<open>Exception\<close> (what
  \<^verbatim>\<open>except Exception\<close> catches).\<close>

datatype exn =
    IndexError
  | AttributeError
  | Raised string  \<comment> \<open>an exception raised inside a collaborator, with its message\<close>

datatype pyval =
    PNone
  | PBool bool
  | PInt int
  | PFloat real
  | PStr string
  | PTensor nat  \<comment> \<open>an opaque tensor\<close>
  | PDict "(string \<times> pyval) list"

text \<open>
  A \<^verbatim>\<open>dict\<close> is the list of its items in insertion order; the keys of a dictionary are
  distinct. Checkpoint and parameter keys are strings.
\<close>

type_synonym pydict = "(string \<times> pyval) list"

definition keys :: "pydict \<Rightarrow> string list" where
  "keys d = map fst d"

definition is_dict :: "pydict \<Rightarrow> bool" where
  "is_dict d = distinct (keys d)"

definition dict_get :: "pydict \<Rightarrow> string \<Rightarrow> pyval \<Rightarrow> pyval" where
  "dict_get d k dflt = (case map_of d k of Some v \<Rightarrow> v | None \<Rightarrow> dflt)"

text \<open>\<^verbatim>\<open>obj.get(k, dflt)\<close>: only a dictionary has the method.\<close>

definition py_get :: "pyval \<Rightarrow> string \<Rightarrow> pyval \<Rightarrow> exn + pyval" where
  "py_get obj k dflt =
     (case obj of PDict d \<Rightarrow> Inr (dict_get d k dflt) | _ \<Rightarrow> Inl AttributeError)"

text \<open>\<^verbatim>\<open>d[k] = v\<close>: a key already present keeps its place and takes the new value, a new
  key goes to the end.\<close>

fun dict_set :: "pydict \<Rightarrow> string \<Rightarrow> pyval \<Rightarrow> pydict" where
  "dict_set [] k v = [(k, v)]"
| "dict_set ((k', v') # d) k v =
     (if k' = k then (k, v) # d else (k', v') # dict_set d k v)"

text \<open>The comprehension \<^verbatim>\<open>{f(k): v for k, v in d.items()}\<close>, filling \<open>acc\<close>.\<close>

fun dict_comp :: "(string \<Rightarrow> string) \<Rightarrow> pydict \<Rightarrow> pydict \<Rightarrow> pydict" where
  "dict_comp f acc [] = acc"
| "dict_comp f acc ((k, v) # d) = dict_comp f (dict_set acc (f k) v) d"

text \<open>Sequencing of two steps that may raise: the first exception ends the computation.\<close>

definition bind :: "exn + 'a \<Rightarrow> ('a \<Rightarrow> exn + 'b) \<Rightarrow> exn + 'b" where
  "bind r f = (case r of Inl e \<Rightarrow> Inl e | Inr x \<Rightarrow> f x)"

subsection \<open>Checkpoint resolution (lines 108 to 133)\<close>

datatype device = MPS | CUDA | CPU

record ModelConfig =
  vocab_size :: pyval
  d_model :: pyval
  n_heads :: pyval
  n_layers :: pyval
  d_ff :: pyval
  dropout :: pyval

text \<open>Lines 108 to 116. The second argument is \<^verbatim>\<open>tokenizer.vocab_size\<close>.\<close>

definition resolve_config :: "pyval \<Rightarrow> pyval \<Rightarrow> exn + ModelConfig" where
  "resolve_config checkpoint tokenizer_vocab_size =
     bind (py_get checkpoint ''vocab_size'' tokenizer_vocab_size) (\<lambda>vocab_size.
     bind (py_get checkpoint ''d_model'' (PInt 256)) (\<lambda>d_model.
     bind (py_get checkpoint ''config'' (PDict [])) (\<lambda>config.
     bind (py_get config ''n_heads'' (PInt 8)) (\<lambda>n_heads.
     bind (py_get config ''n_layers'' (PInt 4)) (\<lambda>n_layers.
     bind (py_get config ''d_ff'' (PInt 1024)) (\<lambda>d_ff.
     bind (py_get config ''dropout'' (PFloat 0.1)) (\<lambda>dropout.
     Inr \<lparr>vocab_size = vocab_size, d_model = d_model, n_heads = n_heads,
          n_layers = n_layers, d_ff = d_ff, dropout = dropout\<rparr>)))))))"

text \<open>
  Lines 132 and 133, on the value bound to \<^verbatim>\<open>state_dict\<close>:
  \<^verbatim>\<open>list(state_dict.keys())[0]\<close> raises IndexError on an empty dictionary, and only a
  dictionary has \<^verbatim>\<open>keys\<close>.
\<close>

definition strip_module_prefix :: "pyval \<Rightarrow> exn + pydict" where
  "strip_module_prefix state_dict =
     (case state_dict of
        PDict d \<Rightarrow>
          (case keys d of
             [] \<Rightarrow> Inl IndexError
           | k0 # _ \<Rightarrow>
               if startswith k0 ''module.'' then Inr (dict_comp (slice_from 7) [] d)
               else Inr d)
      | _ \<Rightarrow> Inl AttributeError)"

text \<open>Lines 129 to 133.\<close>

definition resolve_state_dict :: "pyval \<Rightarrow> exn + pydict" where
  "resolve_state_dict checkpoint =
     bind (py_get checkpoint ''model_state_dict'' checkpoint) strip_module_prefix"

subsection \<open>Events and commands\<close>

record nutrition_info =
  calories :: int
  protein :: real
  carbs :: real
  fat :: real

text \<open>The texts shown to the user, with the values their f-strings interpolate.\<close>

datatype message =
    Using_device device
  | Tokenizer_not_found string
  | Model_not_found string
  | Model_config pyval pyval pyval
  | Error_loading exn
  | Enter_ingredients_first
  | Model_failed_to_load
  | Generated_recipe_header
  | Chef_is_cooking
  | Based_on string nutrition_info
  | Recipe_card string
  | Generation_error exn

text \<open>
  What a run does, in order: the Streamlit calls, and the calls of the core operations
  (formatting, encoding, tensor construction, generation, decoding) with their arguments.
\<close>

datatype event =
    St_write message
  | St_error message
  | St_warning message
  | St_info message
  | St_markdown message
  | St_subheader message
  | St_spinner message
  | St_exception exn
  | Call_format "string list" nutrition_info
  | Call_encode string int
  | Call_tensor "int list" "device option"
  | Call_generate int real int
  | Call_decode "int list" bool

text \<open>A command extends the list of events and returns a value or raises.\<close>

type_synonym 'a cmd = "event list \<Rightarrow> (exn + 'a) \<times> event list"

definition returns :: "'a \<Rightarrow> 'a cmd" where
  "returns x evs = (Inr x, evs)"

definition emit :: "event \<Rightarrow> unit cmd" where
  "emit ev evs = (Inr (), evs @ [ev])"

definition call :: "exn + 'a \<Rightarrow> 'a cmd" where
  "call r evs = (r, evs)"

definition then_do :: "'a cmd \<Rightarrow> ('a \<Rightarrow> 'b cmd) \<Rightarrow> 'b cmd" where
  "then_do m f evs = (case m evs of (Inl e, evs') \<Rightarrow> (Inl e, evs') | (Inr x, evs') \<Rightarrow> f x evs')"

text \<open>\<^verbatim>\<open>try: m except Exception as e: h(e)\<close>.\<close>

definition try_except :: "'a cmd \<Rightarrow> (exn \<Rightarrow> 'a cmd) \<Rightarrow> 'a cmd" where
  "try_except m h evs = (case m evs of (Inl e, evs') \<Rightarrow> h e evs' | (Inr x, evs') \<Rightarrow> (Inr x, evs'))"

subsection \<open>Collaborators\<close>

text \<open>
  \<^verbatim>\<open>torch\<close>, \<^verbatim>\<open>os.path\<close> and \<^verbatim>\<open>model_utils\<close> (\<^verbatim>\<open>RecipeTokenizer\<close>,
  \<^verbatim>\<open>RecipeTransformer\<close>, \<^verbatim>\<open>format_ingredients_for_input\<close>) are parameters: \<open>'m\<close> is
  the type of models, \<open>'k\<close> of tokenizers, \<open>'x\<close> of input tensors. Each call that can
  raise returns a sum.
\<close>

record ('m, 'k, 'x) collaborators =
  mps_is_available :: bool
  cuda_is_available :: bool
  path_exists :: "string \<Rightarrow> bool"
  RecipeTokenizer_load :: "string \<Rightarrow> exn + 'k"
  tokenizer_vocab_size :: "'k \<Rightarrow> pyval"
  torch_load :: "string \<Rightarrow> device \<Rightarrow> exn + pyval"
  RecipeTransformer :: "ModelConfig \<Rightarrow> exn + 'm"
  load_state_dict :: "'m \<Rightarrow> pydict \<Rightarrow> exn + 'm"
  model_to :: "'m \<Rightarrow> device \<Rightarrow> exn + 'm"
  model_eval :: "'m \<Rightarrow> exn + 'm"
  format_ingredients_for_input :: "string list \<Rightarrow> nutrition_info \<Rightarrow> exn + string"
  tokenizer_encode :: "'k \<Rightarrow> string \<Rightarrow> int \<Rightarrow> exn + int list"
  torch_tensor :: "int list \<Rightarrow> device option \<Rightarrow> exn + 'x"
  model_generate :: "'m \<Rightarrow> 'x \<Rightarrow> 'k \<Rightarrow> int \<Rightarrow> real \<Rightarrow> int \<Rightarrow> exn + int list"
  tokenizer_decode :: "'k \<Rightarrow> int list \<Rightarrow> bool \<Rightarrow> exn + string"

subsection \<open>The loader (lines 77 to 143)\<close>

text \<open>Lines 80 to 85.\<close>

definition select_device :: "('m, 'k, 'x) collaborators \<Rightarrow> device" where
  "select_device env =
     (if mps_is_available env then MPS
      else if cuda_is_available env then CUDA
      else CPU)"

type_synonym ('m, 'k) resources = "'m option \<times> 'k option \<times> device option"

text \<open>Lines 90 and 98.\<close>

definition tokenizer_path :: string where
  "tokenizer_path = ''models/recipe_tokenizer.pkl''"

definition model_path :: string where
  "model_path = ''models/nutrigen_transformer_final.pt''"

text \<open>The body of the \<^verbatim>\<open>try\<close>, lines 79 to 139.\<close>

definition load_body :: "('m, 'k, 'x) collaborators \<Rightarrow> ('m, 'k) resources cmd" where
  "load_body env =
     (let device = select_device env in
      then_do (emit (St_write (Using_device device))) (\<lambda>_.
      if \<not> path_exists env tokenizer_path then
        then_do (emit (St_error (Tokenizer_not_found tokenizer_path))) (\<lambda>_.
        returns (None, None, None))
      else
      then_do (call (RecipeTokenizer_load env tokenizer_path)) (\<lambda>tokenizer.
      if \<not> path_exists env model_path then
        then_do (emit (St_error (Model_not_found model_path))) (\<lambda>_.
        returns (None, None, None))
      else
      then_do (call (torch_load env model_path device)) (\<lambda>checkpoint.
      then_do (call (resolve_config checkpoint (tokenizer_vocab_size env tokenizer))) (\<lambda>cfg.
      then_do (emit (St_write (Model_config (d_model cfg) (n_heads cfg) (n_layers cfg)))) (\<lambda>_.
      then_do (call (RecipeTransformer env cfg)) (\<lambda>model.
      then_do (call (resolve_state_dict checkpoint)) (\<lambda>state_dict.
      then_do (call (load_state_dict env model state_dict)) (\<lambda>model.
      then_do (call (model_to env model device)) (\<lambda>model.
      then_do (call (model_eval env model)) (\<lambda>model.
      returns (Some model, Some tokenizer, Some device))))))))))))"

text \<open>Lines 141 to 143: the handler of the \<^verbatim>\<open>try\<close>.\<close>

definition load_model_and_tokenizer :: "('m, 'k, 'x) collaborators \<Rightarrow> ('m, 'k) resources cmd" where
  "load_model_and_tokenizer env =
     try_except (load_body env) (\<lambda>e.
       then_do (emit (St_error (Error_loading e))) (\<lambda>_.
       returns (None, None, None)))"

subsection \<open>The generate button (lines 149 to 207)\<close>

text \<open>The body of the inner \<^verbatim>\<open>try\<close>, lines 160 to 203. \<^verbatim>\<open>tokenizer.encode\<close> on
  \<^verbatim>\<open>None\<close> raises AttributeError.\<close>

definition generate_recipe ::
  "('m, 'k, 'x) collaborators \<Rightarrow> 'm \<Rightarrow> 'k option \<Rightarrow> device option \<Rightarrow> string \<Rightarrow> nutrition_info \<Rightarrow> unit cmd"
where
  "generate_recipe env model tokenizer device ingredients_input targets =
     (let ingredients = ingredients_list ingredients_input;
          nutrition = targets in
      then_do (emit (Call_format ingredients nutrition)) (\<lambda>_.
      then_do (call (format_ingredients_for_input env ingredients nutrition)) (\<lambda>input_text.
      case tokenizer of
        None \<Rightarrow> call (Inl AttributeError)
      | Some tk \<Rightarrow>
      then_do (emit (Call_encode input_text 200)) (\<lambda>_.
      then_do (call (tokenizer_encode env tk input_text 200)) (\<lambda>input_ids.
      then_do (emit (Call_tensor input_ids device)) (\<lambda>_.
      then_do (call (torch_tensor env input_ids device)) (\<lambda>input_tensor.
      then_do (emit (Call_generate 300 0.8 50)) (\<lambda>_.
      then_do (call (model_generate env model input_tensor tk 300 0.8 50)) (\<lambda>output_ids.
      then_do (emit (Call_decode output_ids True)) (\<lambda>_.
      then_do (call (tokenizer_decode env tk output_ids True)) (\<lambda>recipe_text.
      let recipe_text = clean recipe_text in
      then_do (emit (St_info (Based_on (join '', '' ingredients) targets))) (\<lambda>_.
      emit (St_markdown (Recipe_card recipe_text))))))))))))))"

text \<open>Lines 149 to 207, given the triple the loader returned.\<close>

definition on_generate ::
  "('m, 'k, 'x) collaborators \<Rightarrow> ('m, 'k) resources \<Rightarrow> bool \<Rightarrow> string \<Rightarrow> nutrition_info \<Rightarrow> unit cmd"
where
  "on_generate env res generate_btn ingredients_input targets =
     (case res of (model, tokenizer, device) \<Rightarrow>
      if generate_btn then
        if ingredients_input = [] then emit (St_warning Enter_ingredients_first)
        else
          (case model of
             None \<Rightarrow> emit (St_error Model_failed_to_load)
           | Some m \<Rightarrow>
               then_do (emit (St_subheader Generated_recipe_header)) (\<lambda>_.
               then_do (emit (St_spinner Chef_is_cooking)) (\<lambda>_.
               try_except (generate_recipe env m tokenizer device ingredients_input targets) (\<lambda>e.
                 then_do (emit (St_error (Generation_error e))) (\<lambda>_.
                 emit (St_exception e))))))
      else returns ())"

text \<open>One run of the script: line 146, then the handler.\<close>

definition app ::
  "('m, 'k, 'x) collaborators \<Rightarrow> bool \<Rightarrow> string \<Rightarrow> nutrition_info \<Rightarrow> unit cmd"
where
  "app env generate_btn ingredients_input targets =
     then_do (load_model_and_tokenizer env) (\<lambda>res.
     on_generate env res generate_btn ingredients_input targets)"

text \<open>The core operations among the events.\<close>

fun is_core_call :: "event \<Rightarrow> bool" where
  "is_core_call (Call_format _ _) = True"
| "is_core_call (Call_encode _ _) = True"
| "is_core_call (Call_tensor _ _) = True"
| "is_core_call (Call_generate _ _ _) = True"
| "is_core_call (Call_decode _ _) = True"
| "is_core_call _ = False"

subsection \<open>The generation engine\<close>

text \<open>
  Modelled from the spec: \<^verbatim>\<open>RecipeTransformer.generate\<close> is defined in
  \<^verbatim>\<open>model_utils\<close>, which is not among the sources; \<^verbatim>\<open>app.py\<close> only calls it. The
  specification describes it so: a growing token sequence seeded with the input ids; at
  each step one token is sampled from the model's distribution for the next position
  (temperature, then top-k) and appended; the procedure stops when the end-of-sequence
  token is sampled, or when the sequence reaches \<open>max_length\<close>, whichever comes first.

  The draw of a step is \<open>draw\<close> applied to the sequence so far: any run of the stochastic
  procedure is the run of one such function, since the sequence differs at every step.
  The specification does not say whether the length that reaches \<open>max_length\<close> is that of
  the whole sequence or that of the new tokens, so the length is counted after the first
  \<open>counted_from\<close> tokens: 0 for the whole sequence, the length of the input for the new
  tokens only.
\<close>

function generate_loop ::
  "(int list \<Rightarrow> int) \<Rightarrow> int \<Rightarrow> int \<Rightarrow> nat \<Rightarrow> int list \<Rightarrow> int list"
where
  "generate_loop draw eos max_length counted_from seq =
     (let token = draw seq;
          seq' = seq @ [token]
      in if token = eos \<or> max_length \<le> int (length seq') - int counted_from then seq'
         else generate_loop draw eos max_length counted_from seq')"
  by pat_completeness auto
termination
  by (relation "measure (\<lambda>(draw, eos, max_length, counted_from, seq).
        nat (max_length - (int (length seq) - int counted_from)))")
     auto

text \<open>
  Modelled from the spec: the contract \<^verbatim>\<open>generate(model, tokenizer, input_ids,
  max_length, temperature, top_k)\<close> of section 4.5. \<open>sample\<close> is the draw from the model's
  distribution at the given temperature and \<open>top_k\<close>, \<open>eos_token\<close> the tokenizer's
  end-of-sequence token.
\<close>

definition generate ::
  "('m \<Rightarrow> real \<Rightarrow> int \<Rightarrow> int list \<Rightarrow> int) \<Rightarrow> ('k \<Rightarrow> int) \<Rightarrow> nat \<Rightarrow>
   'm \<Rightarrow> 'k \<Rightarrow> int list \<Rightarrow> int \<Rightarrow> real \<Rightarrow> int \<Rightarrow> int list"
where
  "generate sample eos_token counted_from model tokenizer input_ids max_length temperature top_k =
     generate_loop (sample model temperature top_k) (eos_token tokenizer) max_length
       counted_from input_ids"

subsection \<open>Properties of events, and an example environment\<close>

text \<open>An encoding call with \<open>max_length = 200\<close>, a generation call with
  \<open>max_length = 300\<close>, \<open>temperature = 0.8\<close> and \<open>top_k = 50\<close>; any other event.\<close>

fun fixed_parameters :: "event \<Rightarrow> bool" where
  "fixed_parameters (Call_encode _ n) = (n = 200)"
| "fixed_parameters (Call_generate n T k) = (n = 300 \<and> T = 0.8 \<and> k = 50)"
| "fixed_parameters _ = True"

text \<open>The report of a failed load, line 153.\<close>

fun is_load_failure_report :: "event \<Rightarrow> bool" where
  "is_load_failure_report (St_error Model_failed_to_load) = True"
| "is_load_failure_report _ = False"

text \<open>
  An environment to run the script in: no MPS, CUDA present, both artifacts on disk, a
  checkpoint saved from a wrapped model, a model that accepts exactly the two unwrapped
  parameter names. Models, tokenizers and tensors are numbers here.
\<close>

definition example_checkpoint :: pyval where
  "example_checkpoint =
     PDict [(''vocab_size'', PInt 5000),
            (''model_state_dict'',
               PDict [(''module.embed.weight'', PTensor 0), (''module.head.weight'', PTensor 1)])]"

definition example_env :: "(nat, nat, nat) collaborators" where
  "example_env =
     \<lparr>mps_is_available = False,
      cuda_is_available = True,
      path_exists = (\<lambda>p. True),
      RecipeTokenizer_load = (\<lambda>p. Inr 7),
      tokenizer_vocab_size = (\<lambda>k. PInt 4000),
      torch_load = (\<lambda>p d. Inr example_checkpoint),
      RecipeTransformer = (\<lambda>cfg. Inr 0),
      load_state_dict = (\<lambda>m sd.
        if keys sd = [''embed.weight'', ''head.weight''] then Inr (Suc m)
        else Inl (Raised ''Missing key(s) in state_dict'')),
      model_to = (\<lambda>m d. Inr m),
      model_eval = (\<lambda>m. Inr m),
      format_ingredients_for_input = (\<lambda>ingredients nutrition. Inr (join '', '' ingredients)),
      tokenizer_encode = (\<lambda>k text n. Inr (take (nat n) (map of_char text))),
      torch_tensor = (\<lambda>ids d. Inr (length ids)),
      model_generate = (\<lambda>m x k n T top_k. Inr [1, 2, 3]),
      tokenizer_decode = (\<lambda>k ids skip. Inr ''mix well. serve'')\<rparr>"

definition example_targets :: nutrition_info where
  "example_targets = \<lparr>calories = 500, protein = 30, carbs = 40, fat = 20\<rparr>"

section \<open>Auxiliary facts\<close>

subsection \<open>Splitting and stripping\<close>

lemma split_nonempty: "split sep s \<noteq> []"
  by (induction s) (auto split: list.splits)

lemma length_split: "length (split sep s) = Suc (length (filter (\<lambda>c. c = sep) s))"
  by (induction s) (auto split: list.splits simp: split_nonempty)

lemma join_Cons: "ys \<noteq> [] \<Longrightarrow> join sep (x # ys) = x @ sep @ join sep ys"
  by (cases ys) auto

lemma join_split: "join [sep] (split sep s) = s"
proof (induction s)
  case Nil
  show ?case by simp
next
  case (Cons c cs)
  obtain w ws where w: "split sep cs = w # ws"
    using split_nonempty [of sep cs] by (cases "split sep cs") auto
  show ?case
  proof (cases "c = sep")
    case True
    then show ?thesis using Cons by (simp add: join_Cons split_nonempty)
  next
    case False
    have "join [sep] ((c # w) # ws) = c # join [sep] (w # ws)"
      by (cases ws) auto
    then show ?thesis using False Cons w by simp
  qed
qed

lemma split_no_sep: "p \<in> set (split sep s) \<Longrightarrow> sep \<notin> set p"
proof (induction s arbitrary: p)
  case Nil
  then show ?case by simp
next
  case (Cons c cs)
  obtain w ws where w: "split sep cs = w # ws"
    using split_nonempty [of sep cs] by (cases "split sep cs") auto
  have IH: "\<And>q. q \<in> set (w # ws) \<Longrightarrow> sep \<notin> set q"
    using Cons.IH w by simp
  show ?case
  proof (cases "c = sep")
    case True
    then show ?thesis using Cons.prems IH w by auto
  next
    case False
    then have "p = c # w \<or> p \<in> set ws" using Cons.prems w by auto
    then show ?thesis using False IH by auto
  qed
qed

lemma lstrip_head: "lstrip s \<noteq> [] \<Longrightarrow> \<not> isspace (hd (lstrip s))"
  unfolding lstrip_def by (metis hd_dropWhile)

lemma rstrip_last: "rstrip s \<noteq> [] \<Longrightarrow> \<not> isspace (last (rstrip s))"
  unfolding rstrip_def by (metis hd_dropWhile last_rev rev_is_Nil_conv)

lemma rstrip_head:
  assumes "s \<noteq> []" "\<not> isspace (hd s)"
  shows "rstrip s \<noteq> [] \<and> hd (rstrip s) = hd s"
proof -
  obtain c cs where s: "s = c # cs" using assms(1) by (cases s) auto
  have c: "\<not> isspace c" using assms(2) s by simp
  have "dropWhile isspace (rev cs @ [c]) = dropWhile isspace (rev cs) @ [c]"
    using c by (simp add: dropWhile_append3)
  then have "rstrip s = c # rev (dropWhile isspace (rev cs))"
    by (simp add: rstrip_def s)
  then show ?thesis using s by simp
qed

lemma strip_ends:
  "strip s = [] \<or> (\<not> isspace (hd (strip s)) \<and> \<not> isspace (last (strip s)))"
proof (cases "lstrip s = []")
  case True
  then show ?thesis by (simp add: strip_def rstrip_def)
next
  case False
  then have "rstrip (lstrip s) \<noteq> [] \<and> hd (rstrip (lstrip s)) = hd (lstrip s)"
    using rstrip_head lstrip_head by blast
  then show ?thesis
    using lstrip_head [OF False] rstrip_last [of "lstrip s"] by (simp add: strip_def)
qed

lemma strip_sublist: "\<exists>l r. s = l @ strip s @ r \<and> (\<forall>c\<in>set l. isspace c) \<and> (\<forall>c\<in>set r. isspace c)"
proof -
  let ?l = "takeWhile isspace s"
  let ?m = "lstrip s"
  let ?r = "rev (takeWhile isspace (rev ?m))"
  have 1: "s = ?l @ ?m" by (simp add: lstrip_def)
  have "rev (rev ?m) = rev (takeWhile isspace (rev ?m) @ dropWhile isspace (rev ?m))"
    by (simp only: takeWhile_dropWhile_id)
  then have "?m = rev (dropWhile isspace (rev ?m)) @ ?r"
    by (simp only: rev_append rev_rev_ident)
  then have 2: "?m = strip s @ ?r"
    by (simp only: strip_def rstrip_def)
  have 3: "\<forall>c\<in>set ?l. isspace c" by (metis set_takeWhileD)
  have 4: "\<forall>c\<in>set ?r. isspace c" by (metis set_rev set_takeWhileD)
  have "s = ?l @ strip s @ ?r" using 1 2 by metis
  then show ?thesis using 3 4 by blast
qed

subsection \<open>The loader and the handler, step by step\<close>

lemmas cmd_defs = then_do_def try_except_def emit_def call_def returns_def

lemma load_shape:
  "\<exists>res new. load_model_and_tokenizer env evs = (Inr res, evs @ new) \<and>
     (res = (None, None, None) \<or> (\<exists>m k d. res = (Some m, Some k, Some d))) \<and>
     list_all (\<lambda>ev. \<not> is_core_call ev) new"
  unfolding load_model_and_tokenizer_def load_body_def cmd_defs Let_def
  by (auto split: sum.splits prod.splits if_splits)

lemma load_populated_iff:
  "fst (load_model_and_tokenizer env evs) = Inr (Some m, Some k, Some d) \<longleftrightarrow>
     path_exists env tokenizer_path \<and> path_exists env model_path \<and>
     RecipeTokenizer_load env tokenizer_path = Inr k \<and> d = select_device env \<and>
     (\<exists>ck cfg m0 sd m1 m2.
        torch_load env model_path d = Inr ck \<and>
        resolve_config ck (tokenizer_vocab_size env k) = Inr cfg \<and>
        RecipeTransformer env cfg = Inr m0 \<and>
        resolve_state_dict ck = Inr sd \<and>
        load_state_dict env m0 sd = Inr m1 \<and>
        model_to env m1 d = Inr m2 \<and>
        model_eval env m2 = Inr m)"
  unfolding load_model_and_tokenizer_def load_body_def cmd_defs Let_def
  by (auto split: sum.splits prod.splits)

lemma load_absent_cases:
  "fst (load_model_and_tokenizer env evs) = Inr (None, None, None) \<or>
   (\<exists>m k d. fst (load_model_and_tokenizer env evs) = Inr (Some m, Some k, Some d))"
  using load_shape [of env evs] by auto

lemma load_absent_unless:
  assumes "\<And>m k d. fst (load_model_and_tokenizer env evs) \<noteq> Inr (Some m, Some k, Some d)"
  shows "fst (load_model_and_tokenizer env evs) = Inr (None, None, None)"
  using load_absent_cases [of env evs] assms by blast

lemma load_reports:
  "fst (load_model_and_tokenizer env evs) = Inr (None, None, None) \<Longrightarrow>
     \<exists>msg evs'. snd (load_model_and_tokenizer env evs) = evs' @ [St_error msg]"
  unfolding load_model_and_tokenizer_def load_body_def cmd_defs Let_def
  by (auto split: sum.splits prod.splits if_splits)

lemma load_first_event:
  "\<exists>rest. snd (load_model_and_tokenizer env evs) =
     evs @ St_write (Using_device (select_device env)) # rest"
  unfolding load_model_and_tokenizer_def load_body_def cmd_defs Let_def
  by (auto split: sum.splits prod.splits if_splits)

lemma load_device:
  "fst (load_model_and_tokenizer env evs) = Inr (m, k, Some d) \<Longrightarrow> d = select_device env"
  unfolding load_model_and_tokenizer_def load_body_def cmd_defs Let_def
  by (auto split: sum.splits prod.splits if_splits)

lemma load_empty_state_dict:
  assumes "path_exists env tokenizer_path" "path_exists env model_path"
    and "RecipeTokenizer_load env tokenizer_path = Inr tk"
    and "torch_load env model_path (select_device env) = Inr ck"
    and "resolve_config ck (tokenizer_vocab_size env tk) = Inr cfg"
    and "RecipeTransformer env cfg = Inr m0"
    and "resolve_state_dict ck = Inl e"
  shows "load_model_and_tokenizer env evs =
    (Inr (None, None, None),
     evs @ [St_write (Using_device (select_device env)),
            St_write (Model_config (d_model cfg) (n_heads cfg) (n_layers cfg)),
            St_error (Error_loading e)])"
  using assms
  unfolding load_model_and_tokenizer_def load_body_def cmd_defs Let_def
  by simp

lemma generate_recipe_events:
  "\<exists>r new. generate_recipe env m tk dev inp targets evs = (r, evs @ new) \<and>
     list_all (\<lambda>ev. fixed_parameters ev \<and> \<not> is_load_failure_report ev) new"
  unfolding generate_recipe_def cmd_defs Let_def
  by (auto split: sum.splits prod.splits if_splits option.splits)

lemma on_generate_events:
  "\<exists>new. on_generate env res btn inp targets evs = (Inr (), evs @ new) \<and>
     list_all fixed_parameters new \<and>
     (list_ex is_load_failure_report new \<longleftrightarrow> btn \<and> inp \<noteq> [] \<and> fst res = None)"
proof -
  obtain m tk dev where res: "res = (m, tk, dev)" by (cases res) auto
  show ?thesis
  proof (cases m)
    case None
    then show ?thesis
      unfolding on_generate_def res cmd_defs by simp
  next
    case (Some mm)
    let ?evs = "evs @ [St_subheader Generated_recipe_header, St_spinner Chef_is_cooking]"
    obtain r new where new: "generate_recipe env mm tk dev inp targets ?evs = (r, ?evs @ new)"
      and ok: "list_all (\<lambda>ev. fixed_parameters ev \<and> \<not> is_load_failure_report ev) new"
      using generate_recipe_events [of env mm tk dev inp targets ?evs] by auto
    have ok1: "list_all fixed_parameters new"
      using ok by (simp add: list_all_iff)
    have ok2: "\<not> list_ex is_load_failure_report new"
      using ok by (simp add: list_all_iff list_ex_iff)
    show ?thesis
    proof (cases r)
      case (Inl e)
      then show ?thesis
        unfolding on_generate_def res Some cmd_defs using new ok1 ok2 by simp
    next
      case (Inr u)
      then show ?thesis
        unfolding on_generate_def res Some cmd_defs using new ok1 ok2 by simp
    qed
  qed
qed

lemma app_events:
  "\<exists>new. app env btn inp targets evs = (Inr (), evs @ new) \<and> list_all fixed_parameters new"
proof -
  obtain res new1 where l: "load_model_and_tokenizer env evs = (Inr res, evs @ new1)"
    and c: "list_all (\<lambda>ev. \<not> is_core_call ev) new1"
    using load_shape [of env evs] by blast
  have f1: "list_all fixed_parameters new1"
  proof -
    have "\<not> is_core_call ev \<Longrightarrow> fixed_parameters ev" for ev
      by (cases ev) simp_all
    then show ?thesis using c by (auto simp: list_all_iff)
  qed
  obtain new2 where g: "on_generate env res btn inp targets (evs @ new1) = (Inr (), (evs @ new1) @ new2)"
    and f2: "list_all fixed_parameters new2"
    using on_generate_events [of env res btn inp targets "evs @ new1"] by blast
  have "app env btn inp targets evs = (Inr (), evs @ (new1 @ new2))"
    unfolding app_def then_do_def using l g by simp
  then show ?thesis using f1 f2 by (metis list_all_append)
qed

lemma app_empty_input:
  "\<exists>new. app env True [] targets evs = (Inr (), evs @ new @ [St_warning Enter_ingredients_first]) \<and>
     list_all (\<lambda>ev. \<not> is_core_call ev) new"
proof -
  obtain res new1 where l: "load_model_and_tokenizer env evs = (Inr res, evs @ new1)"
    and c: "list_all (\<lambda>ev. \<not> is_core_call ev) new1"
    using load_shape [of env evs] by blast
  have "app env True [] targets evs = (Inr (), evs @ new1 @ [St_warning Enter_ingredients_first])"
    unfolding app_def then_do_def on_generate_def emit_def using l by (cases res) simp
  then show ?thesis using c by blast
qed

lemma app_ignores_other_parameters:
  assumes g: "\<And>m x k. g m x k 300 0.8 50 = model_generate env m x k 300 0.8 50"
    and enc: "\<And>k t. enc k t 200 = tokenizer_encode env k t 200"
  shows "app (env\<lparr>model_generate := g, tokenizer_encode := enc\<rparr>) btn inp targets evs =
         app env btn inp targets evs"
proof -
  let ?env' = "env\<lparr>model_generate := g, tokenizer_encode := enc\<rparr>"
  have l: "load_model_and_tokenizer ?env' = load_model_and_tokenizer env"
    unfolding load_model_and_tokenizer_def load_body_def select_device_def
    by (simp cong: if_cong)
  have g': "g m x k 300 (4 / 5) 50 = model_generate env m x k 300 (4 / 5) 50" for m x k
    using g [of m x k] by simp
  have r: "generate_recipe ?env' m tk dev inp targets = generate_recipe env m tk dev inp targets"
    for m tk dev
    unfolding generate_recipe_def by (simp add: g' enc cong: if_cong option.case_cong)
  have "on_generate ?env' res btn inp targets = on_generate env res btn inp targets" for res
    unfolding on_generate_def by (simp add: r cong: if_cong option.case_cong)
  then show ?thesis
    unfolding app_def by (simp add: l)
qed

lemma example_resolve_config:
  "resolve_config example_checkpoint (PInt 4000) =
     Inr \<lparr>vocab_size = PInt 5000, d_model = PInt 256, n_heads = PInt 8,
          n_layers = PInt 4, d_ff = PInt 1024, dropout = PFloat 0.1\<rparr>"
  by (simp add: resolve_config_def example_checkpoint_def bind_def py_get_def dict_get_def)

lemma example_resolve_state_dict:
  "resolve_state_dict example_checkpoint =
     Inr [(''embed.weight'', PTensor 0), (''head.weight'', PTensor 1)]"
  by (simp add: resolve_state_dict_def strip_module_prefix_def example_checkpoint_def bind_def
      py_get_def dict_get_def keys_def startswith_def slice_from_def)

lemma example_load:
  "load_model_and_tokenizer example_env [] =
     (Inr (Some 1, Some 7, Some CUDA),
      [St_write (Using_device CUDA), St_write (Model_config (PInt 256) (PInt 8) (PInt 4))])"
  by (simp add: load_model_and_tokenizer_def load_body_def cmd_defs Let_def example_env_def
      example_resolve_config example_resolve_state_dict select_device_def keys_def)

lemma example_ingredients: "ingredients_list ''rice, egg '' = [''rice'', ''egg'']"
  by code_simp

lemma example_clean: "clean ''mix well. serve'' = ''Mix well. Serve''"
  by code_simp

lemma example_generate_recipe_from:
  "generate_recipe example_env m (Some 7) (Some CUDA) ''rice, egg '' example_targets evs =
     (Inr (),
      evs @
      [Call_format [''rice'', ''egg''] example_targets,
       Call_encode ''rice, egg'' 200,
       Call_tensor [114, 105, 99, 101, 44, 32, 101, 103, 103] (Some CUDA),
       Call_generate 300 0.8 50,
       Call_decode [1, 2, 3] True,
       St_info (Based_on ''rice, egg'' example_targets),
       St_markdown (Recipe_card ''Mix well. Serve'')])"
  by (simp add: generate_recipe_def cmd_defs Let_def example_env_def example_ingredients
      example_clean)

subsection \<open>Characters\<close>














subsection \<open>The substitution\<close>



declare re_sub.simps(2) [simp del]












subsection \<open>Dictionaries\<close>

lemma keys_simps:
  "keys [] = []"
  "keys ((k, v) # d) = k # keys d"
  "keys (d @ d') = keys d @ keys d'"
  by (simp_all add: keys_def)

lemma keys_dict_set_list:
  "keys (dict_set d k v) = (if k \<in> set (keys d) then keys d else keys d @ [k])"
proof (induction d)
  case Nil
  show ?case by (simp add: keys_simps)
next
  case (Cons kv d)
  obtain k' v' where kv: "kv = (k', v')" by (cases kv) auto
  show ?case using Cons by (simp add: kv keys_simps)
qed

lemma dict_set_fresh: "k \<notin> set (keys d) \<Longrightarrow> dict_set d k v = d @ [(k, v)]"
proof (induction d)
  case Nil
  show ?case by simp
next
  case (Cons kv d)
  obtain k' v' where kv: "kv = (k', v')" by (cases kv) auto
  show ?case using Cons by (auto simp: kv keys_simps)
qed

lemma keys_dict_set: "set (keys (dict_set d k v)) = insert k (set (keys d))"
  by (auto simp: keys_dict_set_list)

lemma is_dict_dict_set: "is_dict d \<Longrightarrow> is_dict (dict_set d k v)"
  by (simp add: is_dict_def keys_dict_set_list)

lemma keys_dict_comp: "set (keys (dict_comp f acc d)) = set (keys acc) \<union> f ` set (keys d)"
proof (induction d arbitrary: acc)
  case Nil
  show ?case by (simp add: keys_simps)
next
  case (Cons kv d)
  obtain k v where kv: "kv = (k, v)" by (cases kv) auto
  have "set (keys (dict_comp f (dict_set acc (f k) v) d)) =
      set (keys (dict_set acc (f k) v)) \<union> f ` set (keys d)"
    by (rule Cons.IH)
  then show ?case by (simp add: kv keys_dict_set keys_simps)
qed

lemma is_dict_dict_comp: "is_dict acc \<Longrightarrow> is_dict (dict_comp f acc d)"
proof (induction d arbitrary: acc)
  case Nil
  then show ?case by simp
next
  case (Cons kv d)
  obtain k v where kv: "kv = (k, v)" by (cases kv) auto
  show ?case using Cons.IH [OF is_dict_dict_set [OF Cons.prems]] by (simp add: kv)
qed

lemma dict_comp_distinct:
  "distinct (keys acc @ map f (keys d)) \<Longrightarrow>
     dict_comp f acc d = acc @ map (\<lambda>(k, v). (f k, v)) d"
proof (induction d arbitrary: acc)
  case Nil
  show ?case by simp
next
  case (Cons kv d)
  obtain k v where kv: "kv = (k, v)" by (cases kv) auto
  have fresh: "f k \<notin> set (keys acc)"
    using Cons.prems by (auto simp: kv keys_simps)
  then have set: "dict_set acc (f k) v = acc @ [(f k, v)]"
    by (rule dict_set_fresh)
  have "distinct (keys (acc @ [(f k, v)]) @ map f (keys d))"
    using Cons.prems by (auto simp: kv keys_simps)
  then have "dict_comp f (acc @ [(f k, v)]) d = (acc @ [(f k, v)]) @ map (\<lambda>(k, v). (f k, v)) d"
    by (rule Cons.IH)
  then show ?case by (simp add: kv set)
qed

lemma startswith_split: "startswith s p \<Longrightarrow> s = p @ drop (length p) s"
  unfolding startswith_def by (metis append_take_drop_id)

lemma distinct_stripped:
  assumes "distinct ks" "\<forall>k\<in>set ks. startswith k p"
  shows "distinct (map (drop (length p)) ks)"
proof -
  have "inj_on (drop (length p)) (set ks)"
  proof (rule inj_onI)
    fix a b
    assume "a \<in> set ks" "b \<in> set ks" "drop (length p) a = drop (length p) b"
    then show "a = b"
      using assms(2) startswith_split [of a p] startswith_split [of b p] by metis
  qed
  then show ?thesis using assms(1) by (simp add: distinct_map)
qed

lemma startswith_twice:
  "startswith k p \<Longrightarrow> startswith (drop (length p) k) p \<longleftrightarrow> startswith k (p @ p)"
proof -
  assume "startswith k p"
  then obtain r where k: "k = p @ r" using startswith_split by blast
  show ?thesis by (simp add: k startswith_def)
qed

subsection \<open>The postprocessor\<close>




subsection \<open>The generation loop\<close>

lemma generate_loop_appends:
  "\<exists>new. generate_loop draw eos max_length counted_from seq = seq @ new \<and> new \<noteq> [] \<and>
     int (length new) \<le> max 1 (max_length - (int (length seq) - int counted_from)) \<and>
     eos \<notin> set (butlast new) \<and>
     (last new = eos \<or> max_length \<le> int (length seq) + int (length new) - int counted_from)"
proof (induction draw eos max_length counted_from seq rule: generate_loop.induct)
  case (1 draw eos max_length counted_from seq)
  let ?t = "draw seq"
  show ?case
  proof (cases "?t = eos \<or> max_length \<le> int (length (seq @ [?t])) - int counted_from")
    case True
    then have "generate_loop draw eos max_length counted_from seq = seq @ [?t]"
      by (subst generate_loop.simps) (simp add: Let_def)
    moreover have "int (length [?t]) \<le> max 1 (max_length - (int (length seq) - int counted_from))"
      by simp
    moreover have "eos \<notin> set (butlast [?t])" by simp
    moreover have "last [?t] = eos \<or>
        max_length \<le> int (length seq) + int (length [?t]) - int counted_from"
      using True by auto
    ultimately show ?thesis by blast
  next
    case False
    then obtain new where new:
      "generate_loop draw eos max_length counted_from (seq @ [?t]) = (seq @ [?t]) @ new"
      "new \<noteq> []"
      "int (length new) \<le> max 1 (max_length - (int (length (seq @ [?t])) - int counted_from))"
      "eos \<notin> set (butlast new)"
      "last new = eos \<or>
         max_length \<le> int (length (seq @ [?t])) + int (length new) - int counted_from"
      using 1 [of ?t "seq @ [?t]"] by blast
    have "generate_loop draw eos max_length counted_from seq =
        generate_loop draw eos max_length counted_from (seq @ [?t])"
      using False by (subst generate_loop.simps) (simp add: Let_def)
    then have a: "generate_loop draw eos max_length counted_from seq = seq @ (?t # new)"
      using new(1) by simp
    have b: "int (length (?t # new)) \<le> max 1 (max_length - (int (length seq) - int counted_from))"
      using new(3) False by auto
    have c: "eos \<notin> set (butlast (?t # new))"
      using new(2,4) False by auto
    have d: "last (?t # new) = eos \<or>
        max_length \<le> int (length seq) + int (length (?t # new)) - int counted_from"
      using new(2,5) by auto
    show ?thesis using a b c d by blast
  qed
qed

section \<open>The claims\<close>

text \<open>
  C1, as the code has it. When the first key of the extracted parameter mapping starts
  with \<^verbatim>\<open>module.\<close>, every key loses its first seven characters; otherwise the mapping is
  returned as it is. When all keys start with the prefix, the result has the same number
  of entries, in the same order and with the same values, each key being the old key
  without its first seven characters; such a key still starts with \<^verbatim>\<open>module.\<close> exactly
  when the old key started with \<^verbatim>\<open>module.module.\<close>, so the prefix is removed once, not
  exhaustively.
\<close>

theorem module_prefix_is_stripped_once:
  assumes "py_get ck ''model_state_dict'' ck = Inr (PDict d)" and "is_dict d" and "d \<noteq> []"
  shows
  "(startswith (hd (keys d)) ''module.'' \<longrightarrow>
      (\<exists>d'. resolve_state_dict ck = Inr d' \<and> is_dict d' \<and>
            set (keys d') = slice_from 7 ` set (keys d)))
   \<and> (\<not> startswith (hd (keys d)) ''module.'' \<longrightarrow> resolve_state_dict ck = Inr d)
   \<and> ((\<forall>k\<in>set (keys d). startswith k ''module.'') \<longrightarrow>
        (\<exists>d'. resolve_state_dict ck = Inr d' \<and>
              d' = map (\<lambda>(k, v). (slice_from 7 k, v)) d \<and>
              length d' = length d \<and>
              keys d' = map (slice_from 7) (keys d) \<and>
              map snd d' = map snd d) \<and>
        (\<forall>k\<in>set (keys d).
           startswith (slice_from 7 k) ''module.'' \<longleftrightarrow> startswith k ''module.module.''))"
proof -
  obtain kv0 d0 where d: "d = kv0 # d0" using assms(3) by (cases d) auto
  then have ks: "keys d = fst kv0 # keys d0" by (simp add: keys_def)
  have r: "resolve_state_dict ck =
      (if startswith (hd (keys d)) ''module.'' then Inr (dict_comp (slice_from 7) [] d) else Inr d)"
    using assms(1) ks by (simp add: resolve_state_dict_def bind_def strip_module_prefix_def)
  have 1: "\<exists>d'. resolve_state_dict ck = Inr d' \<and> is_dict d' \<and>
            set (keys d') = slice_from 7 ` set (keys d)"
    if "startswith (hd (keys d)) ''module.''"
  proof -
    have "is_dict (dict_comp (slice_from 7) [] d)"
      by (rule is_dict_dict_comp) (simp add: is_dict_def keys_def)
    moreover have "set (keys (dict_comp (slice_from 7) [] d)) = slice_from 7 ` set (keys d)"
      by (simp add: keys_dict_comp keys_simps)
    ultimately show ?thesis using r that by simp
  qed
  have 2: "resolve_state_dict ck = Inr d" if "\<not> startswith (hd (keys d)) ''module.''"
    using r that by simp
  have seven: "length ''module.'' = 7" by simp
  have 3: "\<exists>d'. resolve_state_dict ck = Inr d' \<and>
              d' = map (\<lambda>(k, v). (slice_from 7 k, v)) d \<and>
              length d' = length d \<and>
              keys d' = map (slice_from 7) (keys d) \<and>
              map snd d' = map snd d"
    if all: "\<forall>k\<in>set (keys d). startswith k ''module.''"
  proof -
    have first: "startswith (hd (keys d)) ''module.''" using all ks by simp
    have "distinct (map (drop (length ''module.'')) (keys d))"
      using assms(2) all unfolding is_dict_def by (rule distinct_stripped)
    then have "distinct (keys [] @ map (slice_from 7) (keys d))"
      unfolding seven by (simp add: keys_simps slice_from_def [abs_def])
    then have "dict_comp (slice_from 7) [] d = [] @ map (\<lambda>(k, v). (slice_from 7 k, v)) d"
      by (rule dict_comp_distinct)
    then have e: "resolve_state_dict ck = Inr (map (\<lambda>(k, v). (slice_from 7 k, v)) d)"
      using r first by simp
    have k: "keys (map (\<lambda>(k, v). (slice_from 7 k, v)) d) = map (slice_from 7) (keys d)"
      by (simp add: keys_def comp_def case_prod_beta)
    have v: "map snd (map (\<lambda>(k, v). (slice_from 7 k, v)) d) = map snd d"
      by (simp add: comp_def case_prod_beta)
    show ?thesis using e k v by simp
  qed
  have 4: "startswith (slice_from 7 k) ''module.'' \<longleftrightarrow> startswith k ''module.module.''"
    if "startswith k ''module.''" for k
  proof -
    have twice: "''module.'' @ ''module.'' = ''module.module.''" by simp
    show ?thesis
      using startswith_twice [OF that] unfolding seven twice slice_from_def .
  qed
  show ?thesis using 1 2 3 4 by blast
qed

theorem module_prefix_is_stripped_once_witness:
  "resolve_state_dict example_checkpoint =
     Inr [(''embed.weight'', PTensor 0), (''head.weight'', PTensor 1)]"
proof -
  let ?d = "[(''module.embed.weight'', PTensor 0), (''module.head.weight'', PTensor 1)]"
  have 1: "py_get example_checkpoint ''model_state_dict'' example_checkpoint = Inr (PDict ?d)"
    by (simp add: example_checkpoint_def py_get_def dict_get_def)
  have 2: "is_dict ?d" by (simp add: is_dict_def keys_def)
  have 3: "?d \<noteq> []" by simp
  have 4: "\<forall>k\<in>set (keys ?d). startswith k ''module.''"
    by (simp add: keys_def startswith_def)
  show ?thesis
    using module_prefix_is_stripped_once [OF 1 2 3] 4 by (simp add: slice_from_def)
qed

text \<open>
  The claim C1 as stated, that no resolved key starts with the prefix when all the
  original keys do, fails for a key that carries the prefix twice.
\<close>

theorem module_prefix_counterexample:
  "startswith ''module.module.weight'' ''module.''
   \<and> resolve_state_dict (PDict [(''model_state_dict'', PDict [(''module.module.weight'', PTensor 0)])])
       = Inr [(''module.weight'', PTensor 0)]
   \<and> startswith ''module.weight'' ''module.''"
  by (simp add: resolve_state_dict_def bind_def strip_module_prefix_def py_get_def dict_get_def
      keys_def startswith_def slice_from_def)

text \<open>
  C2, as the code has it. For a checkpoint mapping whose \<^verbatim>\<open>config\<close> entry, if there is
  one, is a mapping, resolution returns a configuration: \<open>vocab_size\<close> is the checkpoint's
  entry when present (whatever it is) and the tokenizer's vocabulary size otherwise,
  \<open>d_model\<close> is the checkpoint's entry or 256, and without a \<^verbatim>\<open>config\<close> entry the other
  fields are 8, 4, 1024 and 0.1; with one, each is read from it with the same default.
\<close>

theorem resolve_config_fields:
  assumes "map_of d ''config'' = None \<or> (\<exists>c. map_of d ''config'' = Some (PDict c))"
  shows
  "\<exists>cfg. resolve_config (PDict d) tokenizer_vocab = Inr cfg
     \<and> vocab_size cfg = (case map_of d ''vocab_size'' of Some v \<Rightarrow> v | None \<Rightarrow> tokenizer_vocab)
     \<and> d_model cfg = (case map_of d ''d_model'' of Some v \<Rightarrow> v | None \<Rightarrow> PInt 256)
     \<and> (map_of d ''config'' = None \<longrightarrow>
          n_heads cfg = PInt 8 \<and> n_layers cfg = PInt 4 \<and> d_ff cfg = PInt 1024 \<and>
          dropout cfg = PFloat 0.1)
     \<and> (\<forall>c. map_of d ''config'' = Some (PDict c) \<longrightarrow>
          n_heads cfg = dict_get c ''n_heads'' (PInt 8) \<and>
          n_layers cfg = dict_get c ''n_layers'' (PInt 4) \<and>
          d_ff cfg = dict_get c ''d_ff'' (PInt 1024) \<and>
          dropout cfg = dict_get c ''dropout'' (PFloat 0.1))"
  using assms
proof
  assume "map_of d ''config'' = None"
  then show ?thesis
    by (simp add: resolve_config_def bind_def py_get_def dict_get_def)
next
  assume "\<exists>c. map_of d ''config'' = Some (PDict c)"
  then obtain c where "map_of d ''config'' = Some (PDict c)" by blast
  then show ?thesis
    by (simp add: resolve_config_def bind_def py_get_def dict_get_def [of d])
qed

theorem resolve_config_fields_witness:
  "resolve_config example_checkpoint (PInt 4000) =
     Inr \<lparr>vocab_size = PInt 5000, d_model = PInt 256, n_heads = PInt 8,
          n_layers = PInt 4, d_ff = PInt 1024, dropout = PFloat 0.1\<rparr>"
proof -
  let ?d = "[(''vocab_size'', PInt 5000),
            (''model_state_dict'',
               PDict [(''module.embed.weight'', PTensor 0), (''module.head.weight'', PTensor 1)])]"
  have none: "map_of ?d ''config'' = None" by simp
  then have "map_of ?d ''config'' = None \<or> (\<exists>c. map_of ?d ''config'' = Some (PDict c))"
    by blast
  from resolve_config_fields [OF this, of "PInt 4000"] none
  obtain cfg where cfg: "resolve_config (PDict ?d) (PInt 4000) = Inr cfg"
    "vocab_size cfg = PInt 5000" "d_model cfg = PInt 256" "n_heads cfg = PInt 8"
    "n_layers cfg = PInt 4" "d_ff cfg = PInt 1024" "dropout cfg = PFloat 0.1"
    by auto
  then have "cfg = \<lparr>vocab_size = PInt 5000, d_model = PInt 256, n_heads = PInt 8,
          n_layers = PInt 4, d_ff = PInt 1024, dropout = PFloat 0.1\<rparr>"
    by (cases cfg) simp
  then show ?thesis using cfg(1) by (simp add: example_checkpoint_def)
qed

text \<open>
  The claim C2 as stated, for every checkpoint mapping, fails where the \<^verbatim>\<open>config\<close>
  entry is not a mapping: \<^verbatim>\<open>config.get\<close> raises AttributeError on \<^verbatim>\<open>None\<close>.
\<close>

theorem resolve_config_counterexample:
  "resolve_config (PDict [(''config'', PNone)]) (PInt 4000) = Inl AttributeError"
  by (simp add: resolve_config_def bind_def py_get_def dict_get_def)

text \<open>
  C3. The loader is all-or-nothing and never raises past its boundary: it always returns,
  and what it returns is either the triple \<open>(None, None, None)\<close> or a triple of a model,
  a tokenizer and a device. A missing tokenizer file, a missing checkpoint file, an
  exception while loading either, a checkpoint whose configuration or parameters cannot
  be resolved and a \<open>load_state_dict\<close> that raises each give the absent triple. The
  populated triple is returned exactly when every step succeeded, and an absent triple
  always comes with an error shown to the user.
\<close>

theorem loader_all_or_nothing:
  fixes env :: "('m, 'k, 'x) collaborators"
  shows
  "(\<exists>res evs'. load_model_and_tokenizer env evs = (Inr res, evs') \<and>
      (res = (None, None, None) \<or> (\<exists>m k d. res = (Some m, Some k, Some d))))
   \<and> (\<not> path_exists env tokenizer_path \<longrightarrow>
        fst (load_model_and_tokenizer env evs) = Inr (None, None, None))
   \<and> (\<not> path_exists env model_path \<longrightarrow>
        fst (load_model_and_tokenizer env evs) = Inr (None, None, None))
   \<and> ((\<exists>e. RecipeTokenizer_load env tokenizer_path = Inl e) \<longrightarrow>
        fst (load_model_and_tokenizer env evs) = Inr (None, None, None))
   \<and> ((\<exists>e. torch_load env model_path (select_device env) = Inl e) \<longrightarrow>
        fst (load_model_and_tokenizer env evs) = Inr (None, None, None))
   \<and> (\<forall>ck. torch_load env model_path (select_device env) = Inr ck \<and>
          ((\<forall>v. \<exists>e. resolve_config ck v = Inl e) \<or> (\<exists>e. resolve_state_dict ck = Inl e)) \<longrightarrow>
        fst (load_model_and_tokenizer env evs) = Inr (None, None, None))
   \<and> ((\<forall>m sd. \<exists>e. load_state_dict env m sd = Inl e) \<longrightarrow>
        fst (load_model_and_tokenizer env evs) = Inr (None, None, None))
   \<and> (fst (load_model_and_tokenizer env evs) = Inr (Some m, Some k, Some d) \<longleftrightarrow>
        path_exists env tokenizer_path \<and> path_exists env model_path \<and>
        RecipeTokenizer_load env tokenizer_path = Inr k \<and> d = select_device env \<and>
        (\<exists>ck cfg m0 sd m1 m2.
           torch_load env model_path d = Inr ck \<and>
           resolve_config ck (tokenizer_vocab_size env k) = Inr cfg \<and>
           RecipeTransformer env cfg = Inr m0 \<and>
           resolve_state_dict ck = Inr sd \<and>
           load_state_dict env m0 sd = Inr m1 \<and>
           model_to env m1 d = Inr m2 \<and>
           model_eval env m2 = Inr m))
   \<and> (fst (load_model_and_tokenizer env evs) = Inr (None, None, None) \<longrightarrow>
        (\<exists>msg evs'. snd (load_model_and_tokenizer env evs) = evs' @ [St_error msg]))"
proof -
  let ?r = "fst (load_model_and_tokenizer env evs)"
  have shape: "\<exists>res evs'. load_model_and_tokenizer env evs = (Inr res, evs') \<and>
      (res = (None, None, None) \<or> (\<exists>m k d. res = (Some m, Some k, Some d)))"
    using load_shape [of env evs] by blast
  have iff: "\<And>m k d. ?r = Inr (Some m, Some k, Some d) \<longleftrightarrow>
        path_exists env tokenizer_path \<and> path_exists env model_path \<and>
        RecipeTokenizer_load env tokenizer_path = Inr k \<and> d = select_device env \<and>
        (\<exists>ck cfg m0 sd m1 m2.
           torch_load env model_path d = Inr ck \<and>
           resolve_config ck (tokenizer_vocab_size env k) = Inr cfg \<and>
           RecipeTransformer env cfg = Inr m0 \<and>
           resolve_state_dict ck = Inr sd \<and>
           load_state_dict env m0 sd = Inr m1 \<and>
           model_to env m1 d = Inr m2 \<and>
           model_eval env m2 = Inr m)"
    by (rule load_populated_iff)
  have a1: "\<not> path_exists env tokenizer_path \<Longrightarrow> ?r = Inr (None, None, None)"
    by (rule load_absent_unless) (simp add: iff)
  have a2: "\<not> path_exists env model_path \<Longrightarrow> ?r = Inr (None, None, None)"
    by (rule load_absent_unless) (simp add: iff)
  have a3: "\<exists>e. RecipeTokenizer_load env tokenizer_path = Inl e \<Longrightarrow> ?r = Inr (None, None, None)"
    by (rule load_absent_unless) (auto simp: iff)
  have a4: "\<exists>e. torch_load env model_path (select_device env) = Inl e \<Longrightarrow>
      ?r = Inr (None, None, None)"
    by (rule load_absent_unless) (auto simp: iff)
  have a5: "?r = Inr (None, None, None)"
    if "torch_load env model_path (select_device env) = Inr ck"
      and "(\<forall>v. \<exists>e. resolve_config ck v = Inl e) \<or> (\<exists>e. resolve_state_dict ck = Inl e)" for ck
  proof (rule load_absent_unless)
    fix m k d
    show "?r \<noteq> Inr (Some m, Some k, Some d)"
    proof
      assume "?r = Inr (Some m, Some k, Some d)"
      then obtain ck' cfg sd where
        "d = select_device env" "torch_load env model_path d = Inr ck'"
        "resolve_config ck' (tokenizer_vocab_size env k) = Inr cfg"
        "resolve_state_dict ck' = Inr sd"
        unfolding iff by blast
      with that show False by (metis Inl_Inr_False sum.inject(2))
    qed
  qed
  have a6: "\<forall>m sd. \<exists>e. load_state_dict env m sd = Inl e \<Longrightarrow> ?r = Inr (None, None, None)"
  proof (rule load_absent_unless)
    fix m k d
    assume all: "\<forall>m sd. \<exists>e. load_state_dict env m sd = Inl e"
    show "?r \<noteq> Inr (Some m, Some k, Some d)"
    proof
      assume "?r = Inr (Some m, Some k, Some d)"
      then obtain m0 sd m1 where "load_state_dict env m0 sd = Inr m1"
        unfolding iff by blast
      with all show False by (metis Inl_Inr_False)
    qed
  qed
  have rep: "?r = Inr (None, None, None) \<Longrightarrow>
      \<exists>msg evs'. snd (load_model_and_tokenizer env evs) = evs' @ [St_error msg]"
    by (rule load_reports)
  show ?thesis
    using shape a1 a2 a3 a4 a5 a6 iff [of m k d] rep by blast
qed

theorem loader_all_or_nothing_witness:
  "fst (load_model_and_tokenizer example_env []) = Inr (Some 1, Some 7, Some CUDA)
   \<and> fst (load_model_and_tokenizer (example_env\<lparr>path_exists := \<lambda>p. p \<noteq> tokenizer_path\<rparr>) [])
       = Inr (None, None, None)"
proof -
  have ok: "path_exists example_env tokenizer_path \<and> path_exists example_env model_path \<and>
        RecipeTokenizer_load example_env tokenizer_path = Inr 7 \<and> CUDA = select_device example_env \<and>
        (\<exists>ck cfg m0 sd m1 m2.
           torch_load example_env model_path CUDA = Inr ck \<and>
           resolve_config ck (tokenizer_vocab_size example_env 7) = Inr cfg \<and>
           RecipeTransformer example_env cfg = Inr m0 \<and>
           resolve_state_dict ck = Inr sd \<and>
           load_state_dict example_env m0 sd = Inr m1 \<and>
           model_to example_env m1 CUDA = Inr m2 \<and>
           model_eval example_env m2 = Inr 1)"
    by (simp add: example_env_def select_device_def example_resolve_config
        example_resolve_state_dict keys_def)
  have missing: "\<not> path_exists (example_env\<lparr>path_exists := \<lambda>p. p \<noteq> tokenizer_path\<rparr>) tokenizer_path"
    by simp
  show ?thesis
    using ok missing
      loader_all_or_nothing [of example_env "[]" 1 7 CUDA]
      loader_all_or_nothing [of "example_env\<lparr>path_exists := \<lambda>p. p \<noteq> tokenizer_path\<rparr>" "[]"]
    by blast
qed




text \<open>
  C5. A checkpoint whose extracted parameter mapping is empty makes
  \<^verbatim>\<open>list(state_dict.keys())[0]\<close> raise IndexError. The loader catches it: it returns the
  absent triple and ends with an error shown to the user; when the steps before the
  extraction succeeded, that error is the one built from the IndexError.
\<close>

theorem empty_state_dict_is_reported:
  fixes env :: "('m, 'k, 'x) collaborators"
  assumes "torch_load env model_path (select_device env) = Inr ck"
    and "py_get ck ''model_state_dict'' ck = Inr (PDict [])"
  shows "resolve_state_dict ck = Inl IndexError
    \<and> fst (load_model_and_tokenizer env evs) = Inr (None, None, None)
    \<and> (\<exists>msg evs'. snd (load_model_and_tokenizer env evs) = evs' @ [St_error msg])
    \<and> (path_exists env tokenizer_path \<and> path_exists env model_path \<and>
        RecipeTokenizer_load env tokenizer_path = Inr tk \<and>
        resolve_config ck (tokenizer_vocab_size env tk) = Inr cfg \<and>
        RecipeTransformer env cfg = Inr m0 \<longrightarrow>
        snd (load_model_and_tokenizer env evs) =
          evs @ [St_write (Using_device (select_device env)),
                 St_write (Model_config (d_model cfg) (n_heads cfg) (n_layers cfg)),
                 St_error (Error_loading IndexError)])"
proof -
  have e: "resolve_state_dict ck = Inl IndexError"
    using assms(2) by (simp add: resolve_state_dict_def bind_def strip_module_prefix_def keys_def)
  have "fst (load_model_and_tokenizer env evs) \<noteq> Inr (Some m, Some k, Some d)" for m k d
    unfolding load_populated_iff using assms(1) e by auto
  then have a: "fst (load_model_and_tokenizer env evs) = Inr (None, None, None)"
    by (rule load_absent_unless)
  show ?thesis
    using e a load_reports [OF a] assms(1) load_empty_state_dict [of env tk ck cfg m0 IndexError evs]
    by simp
qed

theorem empty_state_dict_is_reported_witness:
  "load_model_and_tokenizer (example_env\<lparr>torch_load := \<lambda>p d. Inr (PDict [])\<rparr>) [] =
     (Inr (None, None, None),
      [St_write (Using_device CUDA),
       St_write (Model_config (PInt 256) (PInt 8) (PInt 4)),
       St_error (Error_loading IndexError)])"
proof -
  let ?env = "example_env\<lparr>torch_load := \<lambda>p d. Inr (PDict [])\<rparr>"
  let ?cfg = "\<lparr>vocab_size = PInt 4000, d_model = PInt 256, n_heads = PInt 8,
          n_layers = PInt 4, d_ff = PInt 1024, dropout = PFloat 0.1\<rparr>"
  have 1: "torch_load ?env model_path (select_device ?env) = Inr (PDict [])"
    by simp
  have 2: "py_get (PDict []) ''model_state_dict'' (PDict []) = Inr (PDict [])"
    by (simp add: py_get_def dict_get_def)
  have 3: "path_exists ?env tokenizer_path \<and> path_exists ?env model_path \<and>
        RecipeTokenizer_load ?env tokenizer_path = Inr 7 \<and>
        resolve_config (PDict []) (tokenizer_vocab_size ?env 7) = Inr ?cfg \<and>
        RecipeTransformer ?env ?cfg = Inr 0"
    by (simp add: example_env_def resolve_config_def bind_def py_get_def dict_get_def)
  have d: "select_device ?env = CUDA"
    by (simp add: example_env_def select_device_def)
  show ?thesis
    using empty_state_dict_is_reported [OF 1 2, of "[]" 7 ?cfg 0] 3 d
    by (cases "load_model_and_tokenizer ?env []") simp
qed

text \<open>
  C6. The ingredient list is the input split at its commas with each piece stripped: the
  pieces joined by commas are the input again and hold no comma, there is one element more
  than there are commas (so empty elements are kept), each element is its piece without
  the whitespace at both ends, and \<^verbatim>\<open>"chicken breast, broccoli, "\<close> gives
  \<^verbatim>\<open>["chicken breast", "broccoli", ""]\<close>.
\<close>

theorem ingredients_list_split_strip:
  "ingredients_list s = map strip (split (CHR '','') s)
   \<and> join '','' (split (CHR '','') s) = s
   \<and> length (ingredients_list s) = Suc (length (filter (\<lambda>c. c = CHR '','') s))
   \<and> (\<forall>i < length (ingredients_list s).
        CHR '','' \<notin> set (split (CHR '','') s ! i) \<and>
        (\<exists>l r. split (CHR '','') s ! i = l @ ingredients_list s ! i @ r \<and>
               (\<forall>c\<in>set l. isspace c) \<and> (\<forall>c\<in>set r. isspace c)) \<and>
        (ingredients_list s ! i = [] \<or>
         \<not> isspace (hd (ingredients_list s ! i)) \<and> \<not> isspace (last (ingredients_list s ! i))))
   \<and> ingredients_list ''chicken breast, broccoli, '' = [''chicken breast'', ''broccoli'', '''']"
proof -
  have 1: "ingredients_list s = map strip (split (CHR '','') s)"
    by (simp add: ingredients_list_def)
  have 2: "join '','' (split (CHR '','') s) = s"
    by (rule join_split)
  have 3: "length (ingredients_list s) = Suc (length (filter (\<lambda>c. c = CHR '','') s))"
    by (simp add: 1 length_split)
  have 4: "CHR '','' \<notin> set (split (CHR '','') s ! i) \<and>
        (\<exists>l r. split (CHR '','') s ! i = l @ ingredients_list s ! i @ r \<and>
               (\<forall>c\<in>set l. isspace c) \<and> (\<forall>c\<in>set r. isspace c)) \<and>
        (ingredients_list s ! i = [] \<or>
         \<not> isspace (hd (ingredients_list s ! i)) \<and> \<not> isspace (last (ingredients_list s ! i)))"
    if "i < length (ingredients_list s)" for i
  proof -
    have i: "i < length (split (CHR '','') s)" using that by (simp add: 1)
    then have e: "ingredients_list s ! i = strip (split (CHR '','') s ! i)"
      by (simp add: 1)
    have "split (CHR '','') s ! i \<in> set (split (CHR '','') s)"
      using i by simp
    then have "CHR '','' \<notin> set (split (CHR '','') s ! i)"
      by (rule split_no_sep)
    then show ?thesis
      unfolding e
      using strip_sublist [of "split (CHR '','') s ! i"] strip_ends [of "split (CHR '','') s ! i"]
      by blast
  qed
  have 5: "ingredients_list ''chicken breast, broccoli, '' = [''chicken breast'', ''broccoli'', '''']"
    by code_simp
  show ?thesis using 1 2 3 4 5 by blast
qed

theorem ingredients_list_split_strip_witness:
  "length (ingredients_list ''rice, egg '') = 2 \<and> ingredients_list ''rice, egg '' ! 1 = ''egg''"
proof -
  have "length (ingredients_list ''rice, egg '') = Suc (length (filter (\<lambda>c. c = CHR '','') ''rice, egg ''))"
    using ingredients_list_split_strip [of "''rice, egg ''"] by blast
  then show ?thesis by (simp add: example_ingredients)
qed

text \<open>
  C7, on the generation engine as the specification describes it. For
  \<open>max_length \<ge> 1\<close> the procedure returns the input followed by new tokens: at least
  one and at most \<open>max_length\<close> of them, the end-of-sequence token nowhere but possibly
  last, and it stopped because that token was drawn or because the measured length
  reached \<open>max_length\<close>. This holds whether the whole sequence is measured or only a part
  that contains the new tokens. The function is total, so the procedure terminates.
\<close>

theorem generate_terminates_bounded:
  assumes "1 \<le> max_length" and "counted_from \<le> length input_ids"
  shows
  "\<exists>new. generate sample eos_token counted_from model tokenizer input_ids max_length
            temperature top_k = input_ids @ new
     \<and> 1 \<le> length new \<and> int (length new) \<le> max_length
     \<and> eos_token tokenizer \<notin> set (butlast new)
     \<and> (last new = eos_token tokenizer \<or>
         max_length \<le> int (length (input_ids @ new)) - int counted_from)"
proof -
  obtain new where new:
    "generate_loop (sample model temperature top_k) (eos_token tokenizer) max_length
       counted_from input_ids = input_ids @ new"
    "new \<noteq> []"
    "int (length new) \<le> max 1 (max_length - (int (length input_ids) - int counted_from))"
    "eos_token tokenizer \<notin> set (butlast new)"
    "last new = eos_token tokenizer \<or>
       max_length \<le> int (length input_ids) + int (length new) - int counted_from"
    using generate_loop_appends
      [of "sample model temperature top_k" "eos_token tokenizer" max_length counted_from input_ids]
    by blast
  have 1: "1 \<le> length new" using new(2) by (cases new) auto
  have 2: "int (length new) \<le> max_length" using new(3) assms by auto
  show ?thesis
    unfolding generate_def using new(1,4,5) 1 2 by auto
qed

theorem generate_terminates_bounded_witness:
  "generate (\<lambda>m T k seq. int (length seq)) (\<lambda>k. 5) 0 () () [9, 9] 10 0.8 50 = [9, 9, 2, 3, 4, 5]
   \<and> generate (\<lambda>m T k seq. 0) (\<lambda>k. 5) 0 () () [9, 9] 4 0.8 50 = [9, 9, 0, 0]
   \<and> generate (\<lambda>m T k seq. 0) (\<lambda>k. 5) 2 () () [9, 9] 4 0.8 50 = [9, 9, 0, 0, 0, 0]
   \<and> (\<exists>new. generate (\<lambda>m T k seq. 0) (\<lambda>k. 5) 2 () () [9, 9] 4 0.8 50 = [9, 9] @ new
         \<and> 1 \<le> length new \<and> int (length new) \<le> 4)"
proof -
  have h: "(1::int) \<le> 4" by simp
  have i: "(2::nat) \<le> length [9, 9 :: int]" by simp
  have a: "generate (\<lambda>m T k seq. int (length seq)) (\<lambda>k. 5) 0 () () [9, 9] 10 0.8 50
      = [9, 9, 2, 3, 4, 5]"
    by code_simp
  have b: "generate (\<lambda>m T k seq. 0) (\<lambda>k. 5) 0 () () [9, 9] 4 0.8 50 = [9, 9, 0, 0]"
    by code_simp
  have c: "generate (\<lambda>m T k seq. 0) (\<lambda>k. 5) 2 () () [9, 9] 4 0.8 50 = [9, 9, 0, 0, 0, 0]"
    by code_simp
  show ?thesis
    using a b c generate_terminates_bounded
      [OF h i, of "\<lambda>m T k seq. 0" "\<lambda>k. 5" "()" "()" "0.8" 50]
    by blast
qed

text \<open>
  C8. With the button pressed and an empty ingredient string, the handler only shows the
  warning, whatever the loaded resources are, and the whole run performs no core
  operation. With a non-empty string and an absent model it only shows the load-failure
  message. That message is shown in no other case.
\<close>

theorem empty_input_checked_first:
  fixes env :: "('m, 'k, 'x) collaborators"
  shows
  "on_generate env res True [] targets evs = (Inr (), evs @ [St_warning Enter_ingredients_first])
   \<and> (inp \<noteq> [] \<longrightarrow>
        on_generate env (None, tk, dev) True inp targets evs =
          (Inr (), evs @ [St_error Model_failed_to_load]))
   \<and> (\<exists>new. on_generate env res btn inp targets evs = (Inr (), evs @ new) \<and>
        (list_ex is_load_failure_report new \<longleftrightarrow> btn \<and> inp \<noteq> [] \<and> fst res = None))
   \<and> (\<exists>new. app env True [] targets evs =
               (Inr (), evs @ new @ [St_warning Enter_ingredients_first]) \<and>
             list_all (\<lambda>ev. \<not> is_core_call ev) new)"
proof -
  have 1: "on_generate env res True [] targets evs =
      (Inr (), evs @ [St_warning Enter_ingredients_first])"
    unfolding on_generate_def emit_def by (cases res) simp
  have 2: "inp \<noteq> [] \<Longrightarrow> on_generate env (None, tk, dev) True inp targets evs =
      (Inr (), evs @ [St_error Model_failed_to_load])"
    unfolding on_generate_def emit_def by simp
  have 3: "\<exists>new. on_generate env res btn inp targets evs = (Inr (), evs @ new) \<and>
        (list_ex is_load_failure_report new \<longleftrightarrow> btn \<and> inp \<noteq> [] \<and> fst res = None)"
    using on_generate_events [of env res btn inp targets evs] by blast
  show ?thesis
    using 1 2 3 app_empty_input [of env targets evs] by blast
qed

theorem empty_input_checked_first_witness:
  "on_generate example_env (None, None, None) True [] example_targets [] =
     (Inr (), [St_warning Enter_ingredients_first])
   \<and> on_generate example_env (None, None, None) True ''rice'' example_targets [] =
     (Inr (), [St_error Model_failed_to_load])"
  using empty_input_checked_first
    [of example_env "(None, None, None)" example_targets "[]" "''rice''" None None True]
  by simp

text \<open>
  C9. The device is MPS when MPS is available, otherwise CUDA when CUDA is available,
  otherwise the CPU; the choice cannot fail. The loader announces this device first and
  returns it on success.
\<close>

theorem select_device_priority:
  fixes env :: "('m, 'k, 'x) collaborators"
  shows
  "(mps_is_available env \<longrightarrow> select_device env = MPS)
   \<and> (\<not> mps_is_available env \<and> cuda_is_available env \<longrightarrow> select_device env = CUDA)
   \<and> (\<not> mps_is_available env \<and> \<not> cuda_is_available env \<longrightarrow> select_device env = CPU)
   \<and> (\<exists>rest. snd (load_model_and_tokenizer env evs) =
               evs @ St_write (Using_device (select_device env)) # rest)
   \<and> (fst (load_model_and_tokenizer env evs) = Inr (m, k, Some d) \<longrightarrow> d = select_device env)"
  using load_first_event [of env evs] load_device [of env evs m k d]
  by (simp add: select_device_def)

theorem select_device_priority_witness:
  "select_device (example_env\<lparr>mps_is_available := True\<rparr>) = MPS
   \<and> select_device example_env = CUDA
   \<and> select_device (example_env\<lparr>cuda_is_available := False\<rparr>) = CPU"
  using select_device_priority [of "example_env\<lparr>mps_is_available := True\<rparr>"]
    select_device_priority [of example_env]
    select_device_priority [of "example_env\<lparr>cuda_is_available := False\<rparr>"]
  by (simp add: example_env_def)

text \<open>
  C10. In every run, whatever the button, the ingredient string, the targets and the
  collaborators (the checkpoint among them), each encoding call has \<open>max_length = 200\<close>
  and each generation call has \<open>max_length = 300\<close>, \<open>temperature = 0.8\<close> and
  \<open>top_k = 50\<close>. The run is the same when \<^verbatim>\<open>model.generate\<close> and
  \<^verbatim>\<open>tokenizer.encode\<close> are replaced by functions that agree with them at these
  parameters only.
\<close>

theorem generation_parameters_fixed:
  fixes env :: "('m, 'k, 'x) collaborators"
  shows
  "(\<exists>new. app env btn inp targets evs = (Inr (), evs @ new) \<and> list_all fixed_parameters new)
   \<and> ((\<forall>m x k. g m x k 300 0.8 50 = model_generate env m x k 300 0.8 50) \<and>
       (\<forall>k t. enc k t 200 = tokenizer_encode env k t 200) \<longrightarrow>
       app (env\<lparr>model_generate := g, tokenizer_encode := enc\<rparr>) btn inp targets evs =
       app env btn inp targets evs)"
  using app_events [of env btn inp targets evs]
    app_ignores_other_parameters [of g env enc btn inp targets evs]
  by blast

theorem generation_parameters_fixed_witness:
  "app (example_env\<lparr>model_generate := (\<lambda>m x k n T top_k.
           if n = 300 \<and> T = 0.8 \<and> top_k = 50 then Inr [1, 2, 3] else Inr []),
         tokenizer_encode := (\<lambda>k text n.
           if n = 200 then Inr (take (nat n) (map of_char text)) else Inr [])\<rparr>)
       True ''rice, egg '' example_targets []
   = app example_env True ''rice, egg '' example_targets []
   \<and> list_ex (\<lambda>ev. ev = Call_generate 300 0.8 50)
        (snd (app example_env True ''rice, egg '' example_targets []))"
proof -
  have "app example_env True ''rice, egg '' example_targets [] =
     (Inr (),
      [St_write (Using_device CUDA), St_write (Model_config (PInt 256) (PInt 8) (PInt 4)),
       St_subheader Generated_recipe_header, St_spinner Chef_is_cooking,
       Call_format [''rice'', ''egg''] example_targets,
       Call_encode ''rice, egg'' 200,
       Call_tensor [114, 105, 99, 101, 44, 32, 101, 103, 103] (Some CUDA),
       Call_generate 300 0.8 50,
       Call_decode [1, 2, 3] True,
       St_info (Based_on ''rice, egg'' example_targets),
       St_markdown (Recipe_card ''Mix well. Serve'')])"
    by (simp add: app_def on_generate_def then_do_def try_except_def emit_def example_load
        example_generate_recipe_from)
  then have 2: "list_ex (\<lambda>ev. ev = Call_generate 300 0.8 50)
        (snd (app example_env True ''rice, egg '' example_targets []))"
    by simp
  have 3: "(\<forall>m x k. (if (300::int) = 300 \<and> (0.8::real) = 0.8 \<and> (50::int) = 50 then Inr [1, 2, 3] else Inr [])
              = model_generate example_env m x k 300 0.8 50) \<and>
       (\<forall>k t. (if (200::int) = 200 then Inr (take (nat 200) (map of_char t)) else Inr [])
              = tokenizer_encode example_env k t 200)"
    by (simp add: example_env_def)
  show ?thesis
    using 2 3 generation_parameters_fixed [of example_env True "''rice, egg ''" example_targets "[]"
        "\<lambda>m x k n T top_k. if n = 300 \<and> T = 0.8 \<and> top_k = 50 then Inr [1, 2, 3] else Inr []"
        "\<lambda>k text n. if n = 200 then Inr (take (nat n) (map of_char text)) else Inr []"]
    by simp
qed

end
